theory Spec2Isabelle
  imports Main "HOL-Library.Word" "HOL-Library.AList" "HOL-Library.List_Lexorder" "HOL-Library.Sublist"
begin

section \<open>Values of the program\<close>

text \<open>
  A JavaScript string is a sequence of UTF-16 code units; a code unit is modelled as a
  natural number below \<open>65536\<close>. \<open>js\<close> turns an ASCII literal of the theory into such
  a string.
\<close>

type_synonym jstring = "nat list"

definition js :: "string \<Rightarrow> jstring" where
  "js s = map of_char s"

text \<open>
  The values \<open>JSON.parse\<close> can return. A number keeps the text of its literal: the
  IEEE double it denotes is not computed, and no function of the program looks at a number
  beyond its \<open>typeof\<close>. An object is the list of its own properties; a property is read
  with \<open>map_of\<close> (the first binding of a key counts) and \<open>JSON.parse\<close> never builds
  two bindings of one key.
\<close>

datatype json =
    JNull
  | JBool bool
  | JNumber jstring
  | JString jstring
  | JArray "json list"
  | JObject "(jstring \<times> json) list"

text \<open>\<open>utility.ts\<close>: the type \<open>Result<T, E>\<close>.\<close>

datatype ('t, 'e) Result = Success 't | Failure 'e

text \<open>An exception that leaves a function is the left summand of its result.\<close>

datatype js_error = TypeError | SyntaxError

text \<open>\<open>typeof v\<close>, where \<open>None\<close> is \<open>undefined\<close> (the value of a missing property).\<close>

fun typeof :: "json option \<Rightarrow> string" where
  "typeof None = ''undefined''"
| "typeof (Some JNull) = ''object''"
| "typeof (Some (JBool b)) = ''boolean''"
| "typeof (Some (JNumber n)) = ''number''"
| "typeof (Some (JString s)) = ''string''"
| "typeof (Some (JArray xs)) = ''object''"
| "typeof (Some (JObject kvs)) = ''object''"

text \<open>\<open>Array.isArray(v) && v.every(x => typeof x === 'string')\<close>\<close>

fun array_of_strings :: "json option \<Rightarrow> bool" where
  "array_of_strings (Some (JArray xs)) = list_all (\<lambda>x. typeof (Some x) = ''string'') xs"
| "array_of_strings v = False"

text \<open>\<open>Object.keys(m)\<close> of an object given by its property list.\<close>

definition Object_keys :: "(jstring \<times> json) list \<Rightarrow> jstring list" where
  "Object_keys kvs = remdups (map fst kvs)"

section \<open>message.ts: convertMessage\<close>

text \<open>
  The object literal \<open>validators\<close>, in the order of the source: its eleven own
  properties, each a predicate on the message \<open>m\<close>. The message is an object when a
  validator runs (see \<open>convertMessage\<close>), so a validator takes its property list;
  \<open>m.f\<close> is \<open>map_of m f\<close>, since none of the fields read here is a property of
  \<open>Object.prototype\<close>.
\<close>

definition validators :: "(jstring \<times> ((jstring \<times> json) list \<Rightarrow> bool)) list" where
  "validators =
    [(js ''hello'', \<lambda>m. typeof (map_of m (js ''version'')) = ''string''
                        \<and> typeof (map_of m (js ''agent'')) = ''string''),
     (js ''error'', \<lambda>m. typeof (map_of m (js ''name'')) = ''string''
                        \<and> typeof (map_of m (js ''description'')) = ''string''),
     (js ''getpeers'', \<lambda>m. length (Object_keys m) = 1),
     (js ''getmempool'', \<lambda>m. length (Object_keys m) = 1),
     (js ''getchaintip'', \<lambda>m. length (Object_keys m) = 1),
     (js ''peers'', \<lambda>m. array_of_strings (map_of m (js ''peers''))),
     (js ''getobject'', \<lambda>m. typeof (map_of m (js ''objectid'')) = ''string''),
     (js ''ihaveobject'', \<lambda>m. typeof (map_of m (js ''objectid'')) = ''string''),
     (js ''object'', \<lambda>m. typeof (map_of m (js ''object'')) = ''object''
                         \<and> map_of m (js ''object'') \<noteq> Some JNull),
     (js ''mempool'', \<lambda>m. array_of_strings (map_of m (js ''txids''))),
     (js ''chaintip'', \<lambda>m. typeof (map_of m (js ''blockid'')) = ''string'')]"

text \<open>
  \<open>validators\<close> is an ordinary object, so \<open>validators[type]\<close> also finds the
  properties it inherits from \<open>Object.prototype\<close>. These are the functions of
  ECMAScript, with the four legacy helpers of Annex B, which V8 has; the accessor
  \<open>__proto__\<close> is not among them, since Deno deletes it from \<open>Object.prototype\<close>.
\<close>

datatype proto_fn =
    Fn_constructor
  | Fn_toString
  | Fn_toLocaleString
  | Fn_valueOf
  | Fn_hasOwnProperty
  | Fn_isPrototypeOf
  | Fn_propertyIsEnumerable
  | Fn_defineGetter
  | Fn_defineSetter
  | Fn_lookupGetter
  | Fn_lookupSetter

definition Object_prototype :: "(jstring \<times> proto_fn) list" where
  "Object_prototype =
    [(js ''constructor'', Fn_constructor),
     (js ''toString'', Fn_toString),
     (js ''toLocaleString'', Fn_toLocaleString),
     (js ''valueOf'', Fn_valueOf),
     (js ''hasOwnProperty'', Fn_hasOwnProperty),
     (js ''isPrototypeOf'', Fn_isPrototypeOf),
     (js ''propertyIsEnumerable'', Fn_propertyIsEnumerable),
     (js ''__defineGetter__'', Fn_defineGetter),
     (js ''__defineSetter__'', Fn_defineSetter),
     (js ''__lookupGetter__'', Fn_lookupGetter),
     (js ''__lookupSetter__'', Fn_lookupSetter)]"

text \<open>
  The truth value of \<open>f(msg)\<close> for an inherited function \<open>f\<close> called as a plain
  function (\<open>this\<close> is \<open>undefined\<close> in a module) on an object \<open>msg\<close>:
  \<open>Object(msg)\<close> is \<open>msg\<close> itself, \<open>toString\<close> answers \<open>[object Undefined]\<close>;
  both are truthy. Every other one starts with \<open>ToObject(this)\<close> (or reaches it before
  it returns) and throws a \<open>TypeError\<close>.
\<close>

fun call_proto_fn :: "proto_fn \<Rightarrow> js_error + bool" where
  "call_proto_fn Fn_constructor = Inr True"
| "call_proto_fn Fn_toString = Inr True"
| "call_proto_fn f = Inl TypeError"

text \<open>
  \<open>ToString(v)\<close>, which \<open>validators[type]\<close> applies to a \<open>type\<close> that is not a
  string. The text of a number (\<open>Number::toString\<close>, a function of the double) is the
  parameter \<open>numstr\<close>. An array is joined with commas, \<open>null\<close> elements giving the empty
  string. An object answers \<open>[object Object]\<close>, unless it has an own property
  \<open>toString\<close>: that is a JSON value, not callable, and \<open>valueOf\<close> (own and not
  callable, or inherited and returning the object) gives no primitive either, so the
  conversion throws.
\<close>

fun ToString :: "(jstring \<Rightarrow> jstring) \<Rightarrow> json \<Rightarrow> js_error + jstring"
  and join_elements :: "(jstring \<Rightarrow> jstring) \<Rightarrow> json list \<Rightarrow> js_error + jstring"
where
  "ToString numstr JNull = Inr (js ''null'')"
| "ToString numstr (JBool b) = Inr (if b then js ''true'' else js ''false'')"
| "ToString numstr (JNumber n) = Inr (numstr n)"
| "ToString numstr (JString s) = Inr s"
| "ToString numstr (JArray xs) = join_elements numstr xs"
| "ToString numstr (JObject kvs) =
     (if js ''toString'' \<in> set (map fst kvs) then Inl TypeError
      else Inr (js ''[object Object]''))"
| "join_elements numstr [] = Inr []"
| "join_elements numstr (x # xs) =
     (case (if x = JNull then Inr [] else ToString numstr x) of
        Inl e \<Rightarrow> Inl e
      | Inr s \<Rightarrow>
          (if xs = [] then Inr s
           else (case join_elements numstr xs of
                   Inl e \<Rightarrow> Inl e
                 | Inr t \<Rightarrow> Inr (s @ js '','' @ t))))"

definition invalid_format :: jstring where
  "invalid_format = js ''Message JSON is not in valid format''"

text \<open>
  \<open>convertMessage(message)\<close>. The operator \<open>in\<close> throws on a primitive; an array
  has no property \<open>type\<close>. The result \<open>msg as Message\<close> is the message itself.
\<close>

fun convertMessage :: "(jstring \<Rightarrow> jstring) \<Rightarrow> json \<Rightarrow> js_error + (json, jstring) Result" where
  "convertMessage numstr (JObject kvs) =
     (case map_of kvs (js ''type'') of
        None \<Rightarrow> Inr (Failure invalid_format)
      | Some type \<Rightarrow>
          (case ToString numstr type of
             Inl e \<Rightarrow> Inl e
           | Inr key \<Rightarrow>
               (case map_of validators key of
                  Some validator \<Rightarrow>
                    (if validator kvs then Inr (Success (JObject kvs))
                     else Inr (Failure invalid_format))
                | None \<Rightarrow>
                    (case map_of Object_prototype key of
                       None \<Rightarrow> Inr (Failure invalid_format)
                     | Some f \<Rightarrow>
                         (case call_proto_fn f of
                            Inl e \<Rightarrow> Inl e
                          | Inr b \<Rightarrow>
                              (if b then Inr (Success (JObject kvs))
                               else Inr (Failure invalid_format)))))))"
| "convertMessage numstr (JArray xs) = Inr (Failure invalid_format)"
| "convertMessage numstr v = Inl TypeError"

section \<open>Platform functions: text decoding and encoding\<close>

type_synonym byte = "8 word"

text \<open>
  The UTF-8 decoder of the Encoding Standard, which \<open>new TextDecoder().decode\<close> runs
  without the \<open>fatal\<close> flag: a malformed sequence gives the code point \<open>U+FFFD\<close> and
  decoding goes on; nothing is thrown. The state is the code point under construction,
  the bytes seen and needed, and the bounds of the next continuation byte.
\<close>

record utf8_state =
  code_point :: nat
  bytes_seen :: nat
  bytes_needed :: nat
  lower_boundary :: nat
  upper_boundary :: nat

definition utf8_start :: utf8_state where
  "utf8_start = \<lparr>code_point = 0, bytes_seen = 0, bytes_needed = 0,
                  lower_boundary = 0x80, upper_boundary = 0xBF\<rparr>"

definition utf8_lead :: "nat \<Rightarrow> nat list \<times> utf8_state" where
  "utf8_lead b =
     (if b \<le> 0x7F then ([b], utf8_start)
      else if 0xC2 \<le> b \<and> b \<le> 0xDF then
        ([], utf8_start\<lparr>code_point := b mod 32, bytes_needed := 1\<rparr>)
      else if 0xE0 \<le> b \<and> b \<le> 0xEF then
        ([], utf8_start\<lparr>code_point := b mod 16, bytes_needed := 2,
              lower_boundary := (if b = 0xE0 then 0xA0 else 0x80),
              upper_boundary := (if b = 0xED then 0x9F else 0xBF)\<rparr>)
      else if 0xF0 \<le> b \<and> b \<le> 0xF4 then
        ([], utf8_start\<lparr>code_point := b mod 8, bytes_needed := 3,
              lower_boundary := (if b = 0xF0 then 0x90 else 0x80),
              upper_boundary := (if b = 0xF4 then 0x8F else 0xBF)\<rparr>)
      else ([0xFFFD], utf8_start))"

text \<open>
  One byte: the code points it completes and the next state. A byte outside the bounds
  ends the sequence with \<open>U+FFFD\<close> and is then read again as a lead byte.
\<close>

definition utf8_step :: "utf8_state \<Rightarrow> nat \<Rightarrow> nat list \<times> utf8_state" where
  "utf8_step s b =
     (if bytes_needed s = 0 then utf8_lead b
      else if b < lower_boundary s \<or> upper_boundary s < b then
        (case utf8_lead b of (out, s') \<Rightarrow> (0xFFFD # out, s'))
      else if bytes_seen s + 1 = bytes_needed s then
        ([code_point s * 64 + b mod 64], utf8_start)
      else
        ([], s\<lparr>code_point := code_point s * 64 + b mod 64,
                bytes_seen := bytes_seen s + 1,
                lower_boundary := 0x80, upper_boundary := 0xBF\<rparr>))"

fun utf8_decode :: "utf8_state \<Rightarrow> byte list \<Rightarrow> nat list" where
  "utf8_decode s [] = (if bytes_needed s = 0 then [] else [0xFFFD])"
| "utf8_decode s (b # bs) =
     (case utf8_step s (unat b) of (out, s') \<Rightarrow> out @ utf8_decode s' bs)"

text \<open>A code point as UTF-16 code units.\<close>

definition utf16_units :: "nat \<Rightarrow> jstring" where
  "utf16_units cp =
     (if cp < 0x10000 then [cp]
      else [0xD800 + (cp - 0x10000) div 0x400, 0xDC00 + (cp - 0x10000) mod 0x400])"

text \<open>
  \<open>new TextDecoder().decode(bytes)\<close>: UTF-8, not fatal, and (\<open>ignoreBOM\<close> is false) a
  byte order mark at the start is dropped.
\<close>

definition drop_bom :: "nat list \<Rightarrow> nat list" where
  "drop_bom cps = (case cps of [] \<Rightarrow> [] | c # cs \<Rightarrow> if c = 0xFEFF then cs else c # cs)"

definition TextDecoder_decode :: "byte list \<Rightarrow> jstring" where
  "TextDecoder_decode bytes = concat (map utf16_units (drop_bom (utf8_decode utf8_start bytes)))"

text \<open>
  \<open>new TextEncoder().encode(s)\<close>: the code points of the string, a surrogate without
  its partner read as \<open>U+FFFD\<close>, each in UTF-8.
\<close>

definition high_surrogate :: "nat \<Rightarrow> bool" where
  "high_surrogate c \<longleftrightarrow> 0xD800 \<le> c \<and> c \<le> 0xDBFF"

definition low_surrogate :: "nat \<Rightarrow> bool" where
  "low_surrogate c \<longleftrightarrow> 0xDC00 \<le> c \<and> c \<le> 0xDFFF"

fun scalar_values :: "jstring \<Rightarrow> nat list" where
  "scalar_values [] = []"
| "scalar_values [c] = (if high_surrogate c \<or> low_surrogate c then [0xFFFD] else [c])"
| "scalar_values (c # d # cs) =
     (if high_surrogate c \<and> low_surrogate d then
        (0x10000 + (c - 0xD800) * 0x400 + (d - 0xDC00)) # scalar_values cs
      else if high_surrogate c \<or> low_surrogate c then 0xFFFD # scalar_values (d # cs)
      else c # scalar_values (d # cs))"

definition utf8_bytes :: "nat \<Rightarrow> byte list" where
  "utf8_bytes cp =
     (if cp < 0x80 then [of_nat cp]
      else if cp < 0x800 then [of_nat (0xC0 + cp div 64), of_nat (0x80 + cp mod 64)]
      else if cp < 0x10000 then
        [of_nat (0xE0 + cp div 4096), of_nat (0x80 + cp div 64 mod 64),
         of_nat (0x80 + cp mod 64)]
      else
        [of_nat (0xF0 + cp div 262144), of_nat (0x80 + cp div 4096 mod 64),
         of_nat (0x80 + cp div 64 mod 64), of_nat (0x80 + cp mod 64)])"

definition TextEncoder_encode :: "jstring \<Rightarrow> byte list" where
  "TextEncoder_encode s = concat (map utf8_bytes (scalar_values s))"

section \<open>Platform functions: JSON.parse\<close>

text \<open>
  \<open>JSON.parse\<close> on a string, as one pass of a pushdown automaton over the code units,
  following the JSON grammar of ECMAScript: the white space is tab, line feed, carriage
  return and space; a string holds no code unit below \<open>0x20\<close>; a number is
  \<open>-? (0 | [1-9][0-9]*) (. [0-9]+)? ([eE] [+-]? [0-9]+)?\<close>. A property defined twice
  keeps its place and takes the later value. (The order of the properties of an object is
  that of their first definition; that integer-like keys are enumerated first is not
  modelled, and nothing here depends on the order.)
\<close>

abbreviation ch :: "char \<Rightarrow> nat" where
  "ch \<equiv> of_char"

definition whitespace :: "nat \<Rightarrow> bool" where
  "whitespace c \<longleftrightarrow> c = 0x09 \<or> c = 0x0A \<or> c = 0x0D \<or> c = 0x20"

definition digit :: "nat \<Rightarrow> bool" where
  "digit c \<longleftrightarrow> ch CHR ''0'' \<le> c \<and> c \<le> ch CHR ''9''"

definition hex_value :: "nat \<Rightarrow> nat option" where
  "hex_value c =
     (if ch CHR ''0'' \<le> c \<and> c \<le> ch CHR ''9'' then Some (c - ch CHR ''0'')
      else if ch CHR ''a'' \<le> c \<and> c \<le> ch CHR ''f'' then Some (c - ch CHR ''a'' + 10)
      else if ch CHR ''A'' \<le> c \<and> c \<le> ch CHR ''F'' then Some (c - ch CHR ''A'' + 10)
      else None)"

datatype container =
    In_array "json list"
  | In_object "(jstring \<times> json) list" "jstring option"

datatype number_state = N_minus | N_zero | N_int | N_point | N_frac | N_e | N_sign | N_exp

datatype mode =
    Value
  | First_element
  | First_key
  | Key
  | Colon
  | Next
  | Done json
  | Str bool jstring
  | Esc bool jstring
  | Hex bool jstring nat nat
  | Literal json jstring
  | Num number_state jstring
  | Bad

type_synonym parser = "mode \<times> container list"

text \<open>A value is complete: it is the result, an element, or the value of the pending key.\<close>

fun complete :: "json \<Rightarrow> container list \<Rightarrow> parser" where
  "complete v [] = (Done v, [])"
| "complete v (In_array xs # st) = (Next, In_array (xs @ [v]) # st)"
| "complete v (In_object kvs (Some k) # st) =
     (Next, In_object (AList.update k v kvs) None # st)"
| "complete v (In_object kvs None # st) = (Bad, [])"

text \<open>After a value inside an array or an object: a comma or the closing bracket.\<close>

fun after_value :: "nat \<Rightarrow> container list \<Rightarrow> parser" where
  "after_value c (In_array xs # st) =
     (if whitespace c then (Next, In_array xs # st)
      else if c = ch CHR '','' then (Value, In_array xs # st)
      else if c = ch CHR '']'' then complete (JArray xs) st
      else (Bad, []))"
| "after_value c (In_object kvs None # st) =
     (if whitespace c then (Next, In_object kvs None # st)
      else if c = ch CHR '','' then (Key, In_object kvs None # st)
      else if c = ch CHR ''}'' then complete (JObject kvs) st
      else (Bad, []))"
| "after_value c st = (Bad, [])"

text \<open>After the whole text's value: white space only.\<close>

definition after_text :: "nat \<Rightarrow> json \<Rightarrow> parser" where
  "after_text c v = (if whitespace c then (Done v, []) else (Bad, []))"

definition start_value :: "nat \<Rightarrow> container list \<Rightarrow> parser" where
  "start_value c st =
     (if c = ch CHR ''{'' then (First_key, In_object [] None # st)
      else if c = ch CHR ''['' then (First_element, In_array [] # st)
      else if c = 0x22 then (Str False [], st)
      else if c = ch CHR ''-'' then (Num N_minus [c], st)
      else if c = ch CHR ''0'' then (Num N_zero [c], st)
      else if digit c then (Num N_int [c], st)
      else if c = ch CHR ''t'' then (Literal (JBool True) (js ''rue''), st)
      else if c = ch CHR ''f'' then (Literal (JBool False) (js ''alse''), st)
      else if c = ch CHR ''n'' then (Literal JNull (js ''ull''), st)
      else (Bad, []))"

text \<open>The automaton of a number; \<open>None\<close> when the code unit does not continue it.\<close>

fun number_step :: "number_state \<Rightarrow> nat \<Rightarrow> number_state option" where
  "number_step N_minus c =
     (if c = ch CHR ''0'' then Some N_zero else if digit c then Some N_int else None)"
| "number_step N_zero c =
     (if c = ch CHR ''.'' then Some N_point
      else if c = ch CHR ''e'' \<or> c = ch CHR ''E'' then Some N_e else None)"
| "number_step N_int c =
     (if digit c then Some N_int
      else if c = ch CHR ''.'' then Some N_point
      else if c = ch CHR ''e'' \<or> c = ch CHR ''E'' then Some N_e else None)"
| "number_step N_point c = (if digit c then Some N_frac else None)"
| "number_step N_frac c =
     (if digit c then Some N_frac
      else if c = ch CHR ''e'' \<or> c = ch CHR ''E'' then Some N_e else None)"
| "number_step N_e c =
     (if c = ch CHR ''+'' \<or> c = ch CHR ''-'' then Some N_sign
      else if digit c then Some N_exp else None)"
| "number_step N_sign c = (if digit c then Some N_exp else None)"
| "number_step N_exp c = (if digit c then Some N_exp else None)"

fun number_final :: "number_state \<Rightarrow> bool" where
  "number_final N_zero = True"
| "number_final N_int = True"
| "number_final N_frac = True"
| "number_final N_exp = True"
| "number_final s = False"

definition escape_unit :: "nat \<Rightarrow> nat option" where
  "escape_unit c =
     (if c = 0x22 \<or> c = 0x5C \<or> c = ch CHR ''/'' then Some c
      else if c = ch CHR ''b'' then Some 0x08
      else if c = ch CHR ''f'' then Some 0x0C
      else if c = ch CHR ''n'' then Some 0x0A
      else if c = ch CHR ''r'' then Some 0x0D
      else if c = ch CHR ''t'' then Some 0x09
      else None)"

text \<open>
  One code unit. A number ends at the first code unit that does not continue it, and that
  code unit is then read as what follows a value.
\<close>

fun parser_step :: "nat \<Rightarrow> parser \<Rightarrow> parser" where
  "parser_step c (Value, st) =
     (if whitespace c then (Value, st) else start_value c st)"
| "parser_step c (First_element, st) =
     (if whitespace c then (First_element, st)
      else if c = ch CHR '']'' then
        (case st of In_array xs # st' \<Rightarrow> complete (JArray xs) st' | _ \<Rightarrow> (Bad, []))
      else start_value c st)"
| "parser_step c (First_key, st) =
     (if whitespace c then (First_key, st)
      else if c = ch CHR ''}'' then
        (case st of In_object kvs None # st' \<Rightarrow> complete (JObject kvs) st' | _ \<Rightarrow> (Bad, []))
      else if c = 0x22 then (Str True [], st)
      else (Bad, []))"
| "parser_step c (Key, st) =
     (if whitespace c then (Key, st)
      else if c = 0x22 then (Str True [], st)
      else (Bad, []))"
| "parser_step c (Colon, st) =
     (if whitespace c then (Colon, st)
      else if c = ch CHR '':'' then (Value, st)
      else (Bad, []))"
| "parser_step c (Next, st) = after_value c st"
| "parser_step c (Done v, st) = after_text c v"
| "parser_step c (Str k acc, st) =
     (if c = 0x22 then
        (if k then
           (case st of
              In_object kvs None # st' \<Rightarrow> (Colon, In_object kvs (Some acc) # st')
            | _ \<Rightarrow> (Bad, []))
         else complete (JString acc) st)
      else if c = 0x5C then (Esc k acc, st)
      else if c < 0x20 then (Bad, [])
      else (Str k (acc @ [c]), st))"
| "parser_step c (Esc k acc, st) =
     (if c = ch CHR ''u'' then (Hex k acc 0 0, st)
      else (case escape_unit c of
              Some u \<Rightarrow> (Str k (acc @ [u]), st)
            | None \<Rightarrow> (Bad, [])))"
| "parser_step c (Hex k acc n v, st) =
     (case hex_value c of
        None \<Rightarrow> (Bad, [])
      | Some h \<Rightarrow>
          (if n = 3 then (Str k (acc @ [v * 16 + h]), st)
           else (Hex k acc (n + 1) (v * 16 + h), st)))"
| "parser_step c (Literal v rest, st) =
     (case rest of
        [] \<Rightarrow> (Bad, [])
      | r # rs \<Rightarrow>
          (if c \<noteq> r then (Bad, [])
           else if rs = [] then complete v st
           else (Literal v rs, st)))"
| "parser_step c (Num s lexeme, st) =
     (case number_step s c of
        Some s' \<Rightarrow> (Num s' (lexeme @ [c]), st)
      | None \<Rightarrow>
          (if \<not> number_final s then (Bad, [])
           else if st = [] then after_text c (JNumber lexeme)
           else (case complete (JNumber lexeme) st of
                   (Next, st') \<Rightarrow> after_value c st'
                 | _ \<Rightarrow> (Bad, []))))"
| "parser_step c (Bad, st) = (Bad, [])"

text \<open>The end of the text: the value, if there is one complete; a \<open>SyntaxError\<close> if not.\<close>

fun parser_result :: "parser \<Rightarrow> js_error + json" where
  "parser_result (Done v, st) = Inr v"
| "parser_result (Num s lexeme, []) =
     (if number_final s then Inr (JNumber lexeme) else Inl SyntaxError)"
| "parser_result p = Inl SyntaxError"

definition JSON_parse :: "jstring \<Rightarrow> js_error + json" where
  "JSON_parse text = parser_result (fold parser_step text (Value, []))"

section \<open>message.ts: parseMessage\<close>

definition not_valid_json :: jstring where
  "not_valid_json = js ''Message object is not valid JSON''"

text \<open>
  \<open>parseMessage(message)\<close>: the bytes are decoded, the text is parsed inside
  \<open>try\<close>, and \<open>catch\<close> turns whatever \<open>JSON.parse\<close> throws into the failure.
\<close>

definition parseMessage :: "byte list \<Rightarrow> js_error + (json, jstring) Result" where
  "parseMessage message =
     (let messageString = TextDecoder_decode message
      in case JSON_parse messageString of
           Inr parsedMessage \<Rightarrow> Inr (Success parsedMessage)
         | Inl err \<Rightarrow> Inr (Failure not_valid_json))"

section \<open>Platform functions: JSON.stringify of strings\<close>

definition hex_digit :: "nat \<Rightarrow> nat" where
  "hex_digit d = (if d < 10 then ch CHR ''0'' + d else ch CHR ''a'' + (d - 10))"

text \<open>\<open>UnicodeEscape\<close>: a backslash, \<open>u\<close> and four lowercase hexadecimal digits.\<close>

definition unicode_escape :: "nat \<Rightarrow> jstring" where
  "unicode_escape c =
     [0x5C, ch CHR ''u'', hex_digit (c div 4096 mod 16), hex_digit (c div 256 mod 16),
      hex_digit (c div 16 mod 16), hex_digit (c mod 16)]"

definition quote_unit :: "nat \<Rightarrow> jstring" where
  "quote_unit c =
     (if c = 0x08 then [0x5C, ch CHR ''b'']
      else if c = 0x09 then [0x5C, ch CHR ''t'']
      else if c = 0x0A then [0x5C, ch CHR ''n'']
      else if c = 0x0C then [0x5C, ch CHR ''f'']
      else if c = 0x0D then [0x5C, ch CHR ''r'']
      else if c = 0x22 then [0x5C, 0x22]
      else if c = 0x5C then [0x5C, 0x5C]
      else if c < 0x20 \<or> high_surrogate c \<or> low_surrogate c then unicode_escape c
      else [c])"

text \<open>
  The characters of a quoted string: a surrogate pair stays as it is, every other code
  unit goes through \<open>quote_unit\<close>.
\<close>

fun quote_units :: "jstring \<Rightarrow> jstring" where
  "quote_units [] = []"
| "quote_units [c] = quote_unit c"
| "quote_units (c # d # cs) =
     (if high_surrogate c \<and> low_surrogate d then c # d # quote_units cs
      else quote_unit c @ quote_units (d # cs))"

text \<open>\<open>QuoteJSONString\<close>, which is \<open>JSON.stringify\<close> on a string.\<close>

definition QuoteJSONString :: "jstring \<Rightarrow> jstring" where
  "QuoteJSONString s = [0x22] @ quote_units s @ [0x22]"

fun commas :: "jstring list \<Rightarrow> jstring" where
  "commas [] = []"
| "commas [x] = x"
| "commas (x # y # ys) = x @ [ch CHR '',''] @ commas (y # ys)"

text \<open>
  \<open>JSON.stringify\<close> of an object all of whose properties are strings, given by its
  properties in the order they were written.
\<close>

definition JSON_stringify_strings :: "(jstring \<times> jstring) list \<Rightarrow> jstring" where
  "JSON_stringify_strings props =
     [ch CHR ''{''] @
     commas (map (\<lambda>(k, v). QuoteJSONString k @ [ch CHR '':''] @ QuoteJSONString v) props) @
     [ch CHR ''}'']"

section \<open>message.ts: canonicalizeMessage\<close>

text \<open>
  Modelled from the spec: \<open>canonicalize\<close>, the function of the package
  \<open>npm:json-canonicalize\<close> that \<open>message.ts\<close> imports, is not part of the sources. The
  spec (4.1) describes it: given a JSON value, a serialization in which the keys of every
  object are sorted lexicographically, recursively, and no insignificant white space is
  present. Strings are written as \<open>JSON.stringify\<close> writes them; the text of a number is
  the parameter \<open>numstr\<close>.
\<close>

fun canonicalize :: "(jstring \<Rightarrow> jstring) \<Rightarrow> json \<Rightarrow> jstring" where
  "canonicalize numstr JNull = js ''null''"
| "canonicalize numstr (JBool b) = (if b then js ''true'' else js ''false'')"
| "canonicalize numstr (JNumber n) = numstr n"
| "canonicalize numstr (JString s) = QuoteJSONString s"
| "canonicalize numstr (JArray xs) =
     [ch CHR ''[''] @ commas (map (canonicalize numstr) xs) @ [ch CHR '']'']"
| "canonicalize numstr (JObject kvs) =
     [ch CHR ''{''] @
     commas (map (\<lambda>(k, t). QuoteJSONString k @ [ch CHR '':''] @ t)
               (sort_key fst (AList.clearjunk (map (\<lambda>(k, v). (k, canonicalize numstr v)) kvs)))) @
     [ch CHR ''}'']"

text \<open>
  \<open>canonicalizeMessage(message: string)\<close> hands its argument, a string, to
  \<open>canonicalize\<close> as the value to serialize.
\<close>

definition canonicalizeMessage :: "(jstring \<Rightarrow> jstring) \<Rightarrow> jstring \<Rightarrow> jstring" where
  "canonicalizeMessage numstr message = canonicalize numstr (JString message)"

section \<open>The server: sendError, isValidMessageType, handleConnection\<close>

text \<open>
  What is observed of a connection: the arguments of the calls of \<open>conn.write\<close>, in
  order; the arguments of the calls of \<open>parseMessage\<close>, in order (a history of the run,
  not a variable of the program); whether \<open>conn.close()\<close> was called; whether the read
  loop is still running.
\<close>

record connection =
  written :: "byte list list"
  parsed :: "byte list list"
  closed :: bool
  reading :: bool

definition accepted :: connection where
  "accepted = \<lparr>written = [], parsed = [], closed = False, reading = True\<rparr>"

text \<open>
  \<open>sendError(conn, code, message)\<close>. A failing \<open>conn.write\<close> is caught and logged
  inside the function: it changes nothing of what follows.
\<close>

definition sendError :: "connection \<Rightarrow> jstring \<Rightarrow> jstring \<Rightarrow> connection" where
  "sendError conn code message =
     (let errorResponse =
            JSON_stringify_strings
              [(js ''type'', js ''error''), (js ''code'', code), (js ''message'', message)]
      in conn\<lparr>written := written conn @ [TextEncoder_encode errorResponse]\<rparr>)"

definition validTypes :: "jstring list" where
  "validTypes = [js ''connect'', js ''disconnect'', js ''message'']"

text \<open>
  \<open>isValidMessageType(message)\<close>, as the truth value of what it returns. A primitive
  is falsy or not of type \<open>object\<close>; an array has no property \<open>type\<close>;
  \<open>includes\<close> finds only a string equal to one of the three.
\<close>

fun isValidMessageType :: "json \<Rightarrow> bool" where
  "isValidMessageType (JObject kvs) =
     (case map_of kvs (js ''type'') of
        None \<Rightarrow> False
      | Some (JString t) \<Rightarrow> t \<in> set validTypes
      | Some v \<Rightarrow> False)"
| "isValidMessageType v = False"

text \<open>
  What the network delivers to a connection: bytes, the end of the stream, or a failure
  of the read. \<open>conn.read(buffer)\<close> with the buffer of 1024 bytes takes at most 1024
  of the bytes that are there and leaves the rest for the next read.
\<close>

datatype net_event = Data "byte list" | End_of_stream | Read_failure

text \<open>
  A read of the data \<open>bs\<close> returns \<open>take 1024 bs\<close>; this is what is left for the
  following reads.
\<close>

definition after_read :: "byte list \<Rightarrow> net_event list \<Rightarrow> net_event list" where
  "after_read bs evs = (if length bs \<le> 1024 then evs else Data (drop 1024 bs) # evs)"

fun event_weight :: "net_event \<Rightarrow> nat" where
  "event_weight (Data bs) = Suc (length bs)"
| "event_weight e = 1"

text \<open>
  The bytes that the successive calls of \<open>conn.read(buffer)\<close> return, up to the first
  call that returns \<open>null\<close>, throws, or stays pending.
\<close>

function reads :: "net_event list \<Rightarrow> byte list list" where
  "reads [] = []"
| "reads (End_of_stream # evs) = []"
| "reads (Read_failure # evs) = []"
| "reads (Data bs # evs) = take 1024 bs # reads (after_read bs evs)"
  by pat_completeness auto
termination
  by (relation "measure (\<lambda>evs. sum_list (map event_weight evs))")
     (auto simp: after_read_def not_le)

text \<open>
  The body of the loop after a read of \<open>bytesRead\<close> bytes, on
  \<open>buffer.subarray(0, bytesRead)\<close>; the truth value says whether the loop goes on. The
  template literal of \<open>console.log\<close> converts the parsed value to a string, which can
  throw; the \<open>catch\<close> of the loop then leaves it.
\<close>

definition on_read :: "(jstring \<Rightarrow> jstring) \<Rightarrow> byte list \<Rightarrow> connection \<Rightarrow> connection \<times> bool" where
  "on_read numstr bytes conn =
     (let conn1 = conn\<lparr>parsed := parsed conn @ [bytes]\<rparr>
      in case parseMessage bytes of
           Inl err \<Rightarrow> (conn1, False)
         | Inr (Failure error) \<Rightarrow> (sendError conn1 (js ''INVALID_FORMAT'') error, True)
         | Inr (Success message) \<Rightarrow>
             (case ToString numstr message of
                Inl err \<Rightarrow> (conn1, False)
              | Inr text \<Rightarrow>
                  (if \<not> isValidMessageType message then
                     (sendError conn1 (js ''INVALID_FORMAT'') (js ''Invalid message type''), True)
                   else (conn1, True))))"

text \<open>
  The loop of \<open>handler\<close>. With no event left the read stays pending and the loop is
  still running; at the end of the stream and at a failing read it is left. The connection
  is not closed in either case.
\<close>

function handler :: "(jstring \<Rightarrow> jstring) \<Rightarrow> net_event list \<Rightarrow> connection \<Rightarrow> connection" where
  "handler numstr [] conn = conn"
| "handler numstr (End_of_stream # evs) conn = conn\<lparr>reading := False\<rparr>"
| "handler numstr (Read_failure # evs) conn = conn\<lparr>reading := False\<rparr>"
| "handler numstr (Data bs # evs) conn =
     (case on_read numstr (take 1024 bs) conn of
        (conn', False) \<Rightarrow> conn'\<lparr>reading := False\<rparr>
      | (conn', True) \<Rightarrow> handler numstr (after_read bs evs) conn')"
  by pat_completeness auto
termination
  by (relation "measure (\<lambda>(numstr, evs, conn). sum_list (map event_weight evs))")
     (auto simp: after_read_def not_le)

text \<open>
  \<open>handleConnection(conn)\<close> starts the handler; the call of an async function does
  not throw, so the outer \<open>catch\<close>, the only place that closes the connection, does not
  run.
\<close>

definition handleConnection :: "(jstring \<Rightarrow> jstring) \<Rightarrow> net_event list \<Rightarrow> connection" where
  "handleConnection numstr evs = handler numstr evs accepted"

section \<open>The types of message.ts\<close>

text \<open>
  The types that the fields of the message types are declared with: \<open>string\<close>,
  \<open>number\<close>, a union of string literals, \<open>string[]\<close>, and an object type given by
  its fields.
\<close>

datatype field_type =
    T_string
  | T_number
  | T_literals "jstring list"
  | T_string_array
  | T_object "(jstring \<times> field_type) list"

text \<open>The twelve string literals of the field \<open>name\<close> of \<open>MessageError\<close>.\<close>

definition ErrorCode :: "jstring list" where
  "ErrorCode =
    [js ''INTERNAL_ERROR'', js ''INVALID_FORMAT'', js ''UNKNOWN_OBJECT'',
     js ''UNFINDABLE_OBJECT'', js ''INVALID_HANDSHAKE'', js ''INVALID_TX_OUTPOINT'',
     js ''INVALID_TX_SIGNATURE'', js ''INVALID_TX_CONSERVATION'',
     js ''INVALID_BLOCK_COINBASE'', js ''INVALID_BLOCK_TIMESTAMP'', js ''INVALID_BLOCK_POW'',
     js ''INVALID_GENESIS'']"

text \<open>
  The union \<open>Message\<close>: for each variant, in the order of the source, its tag and the
  fields it declares beside \<open>type\<close>, each with its declared type.
\<close>

definition Message :: "(jstring \<times> (jstring \<times> field_type) list) list" where
  "Message =
    [(js ''hello'', [(js ''version'', T_string), (js ''agent'', T_string)]),
     (js ''error'', [(js ''name'', T_literals ErrorCode), (js ''description'', T_string)]),
     (js ''getpeers'', []),
     (js ''peers'', [(js ''peers'', T_string_array)]),
     (js ''getobject'', [(js ''objectid'', T_string)]),
     (js ''ihaveobject'', [(js ''objectid'', T_string)]),
     (js ''object'',
        [(js ''object'',
          T_object [(js ''T'', T_string), (js ''created'', T_number), (js ''miner'', T_string),
                    (js ''nonce'', T_string), (js ''note'', T_string), (js ''previd'', T_string),
                    (js ''txids'', T_string_array), (js ''type'', T_string)])]),
     (js ''getmempool'', []),
     (js ''mempool'', [(js ''txids'', T_string_array)]),
     (js ''getchaintip'', []),
     (js ''chaintip'', [(js ''blockid'', T_string)])]"

fun is_string :: "json \<Rightarrow> bool" where
  "is_string (JString s) = True"
| "is_string v = False"

fun is_number :: "json \<Rightarrow> bool" where
  "is_number (JNumber n) = True"
| "is_number v = False"

fun is_string_array :: "json \<Rightarrow> bool" where
  "is_string_array (JArray xs) = list_all is_string xs"
| "is_string_array v = False"

fun is_structured :: "json \<Rightarrow> bool" where
  "is_structured (JArray xs) = True"
| "is_structured (JObject kvs) = True"
| "is_structured v = False"

text \<open>A value is of a declared type.\<close>

fun conforms :: "field_type \<Rightarrow> json \<Rightarrow> bool" where
  "conforms T_string v = is_string v"
| "conforms T_number v = is_number v"
| "conforms (T_literals literals) v = (case v of JString s \<Rightarrow> s \<in> set literals | _ \<Rightarrow> False)"
| "conforms T_string_array v = is_string_array v"
| "conforms (T_object declared) v =
     (case v of
        JObject kvs \<Rightarrow>
          list_all (\<lambda>(f, ty). case map_of kvs f of None \<Rightarrow> False | Some x \<Rightarrow> conforms ty x)
            declared
      | _ \<Rightarrow> False)"

text \<open>
  The outer kind of the values of a declared type, which is less than the type asks: a
  string for \<open>string\<close> and for a union of string literals, whichever string it is; a
  non-null object or array for an object type, whatever its fields.
\<close>

fun kind :: "field_type \<Rightarrow> json \<Rightarrow> bool" where
  "kind T_string v = is_string v"
| "kind T_number v = is_number v"
| "kind (T_literals literals) v = is_string v"
| "kind T_string_array v = is_string_array v"
| "kind (T_object declared) v = is_structured v"

text \<open>The object \<open>m\<close> has the field, and its value is of the kind of the declared type.\<close>

definition has_field :: "(jstring \<times> json) list \<Rightarrow> jstring \<times> field_type \<Rightarrow> bool" where
  "has_field m field =
     (case map_of m (fst field) of None \<Rightarrow> False | Some v \<Rightarrow> kind (snd field) v)"

section \<open>Notation for inputs\<close>

text \<open>The bytes of an ASCII text.\<close>

definition ascii :: "string \<Rightarrow> byte list" where
  "ascii s = map of_char s"

text \<open>The bytes an event holds.\<close>

fun data_bytes :: "net_event \<Rightarrow> byte list" where
  "data_bytes (Data bs) = bs"
| "data_bytes e = []"

text \<open>The event is data that one read takes whole.\<close>

fun one_read :: "net_event \<Rightarrow> bool" where
  "one_read (Data bs) = (length bs \<le> 1024)"
| "one_read e = False"

text \<open>The bytes of the error message with code \<open>INVALID_FORMAT\<close> and a description.\<close>

definition format_error :: "jstring \<Rightarrow> byte list" where
  "format_error description =
     TextEncoder_encode
       (JSON_stringify_strings
          [(js ''type'', js ''error''), (js ''code'', js ''INVALID_FORMAT''),
           (js ''message'', description)])"

text \<open>
  What one read contributes when the loop body runs on it: the messages written in
  answer, and whether the loop goes on. Neither depends on the connection (see
  \<open>on_read_eq\<close>).
\<close>

definition replies :: "(jstring \<Rightarrow> jstring) \<Rightarrow> byte list \<Rightarrow> byte list list" where
  "replies numstr bytes = written (fst (on_read numstr bytes accepted))"

definition goes_on :: "(jstring \<Rightarrow> jstring) \<Rightarrow> byte list \<Rightarrow> bool" where
  "goes_on numstr bytes = snd (on_read numstr bytes accepted)"

section \<open>Facts\<close>

subsection \<open>Strings and evaluation\<close>

lemma js_eq_iff [simp]: "js a = js b \<longleftrightarrow> a = b"
  by (simp add: js_def inj_map_eq_map [OF inj_of_char])

lemmas decode_defs =
  TextDecoder_decode_def utf8_step_def utf8_lead_def utf8_start_def drop_bom_def utf16_units_def

lemmas parse_defs =
  JSON_parse_def start_value_def whitespace_def digit_def escape_unit_def after_text_def
  hex_value_def

lemmas encode_defs =
  TextEncoder_encode_def utf8_bytes_def high_surrogate_def low_surrogate_def

lemmas stringify_defs =
  JSON_stringify_strings_def QuoteJSONString_def quote_unit_def unicode_escape_def hex_digit_def

subsection \<open>The validators and the declared fields\<close>

lemma typeof_string_iff: "typeof v = ''string'' \<longleftrightarrow> (\<exists>x. v = Some x \<and> is_string x)"
  by (cases v rule: typeof.cases) auto

lemma conforms_kind: "conforms ty v \<Longrightarrow> kind ty v"
  by (cases ty; cases v) simp_all

lemma typeof_string_has_field:
  "typeof (map_of m f) = ''string'' \<longleftrightarrow> has_field m (f, T_string)"
  "typeof (map_of m f) = ''string'' \<longleftrightarrow> has_field m (f, T_literals literals)"
  by (cases "map_of m f" rule: typeof.cases; simp add: has_field_def)+

lemma array_of_strings_has_field:
  "array_of_strings (map_of m f) \<longleftrightarrow> has_field m (f, T_string_array)"
proof -
  have "list_all (\<lambda>x. typeof (Some x) = ''string'') xs = list_all is_string xs" for xs
    by (induction xs) (auto simp: typeof_string_iff)
  then show ?thesis
    by (cases "map_of m f" rule: array_of_strings.cases) (auto simp: has_field_def)
qed

lemma structured_has_field:
  "typeof (map_of m f) = ''object'' \<and> map_of m f \<noteq> Some JNull
     \<longleftrightarrow> has_field m (f, T_object declared)"
  by (cases "map_of m f" rule: typeof.cases) (auto simp: has_field_def)

lemmas shape_simps =
  typeof_string_has_field array_of_strings_has_field structured_has_field

lemma card_one_member: "k \<in> S \<Longrightarrow> card S = 1 \<longleftrightarrow> S = {k}"
  by (auto simp: card_1_singleton_iff)

lemma only_key:
  assumes "map_of m k = Some v"
  shows "length (Object_keys m) = 1 \<longleftrightarrow> set (map fst m) = {k}"
proof -
  have "(k, v) \<in> set m"
    using assms by (rule map_of_SomeD)
  then have k: "k \<in> set (map fst m)"
    by (force simp: image_iff)
  have "length (Object_keys m) = card (set (map fst m))"
    by (simp add: Object_keys_def length_remdups_card_conv)
  then show ?thesis
    using card_one_member [OF k] by simp
qed

text \<open>What the validator of a tag tests, in terms of the fields declared for the tag.\<close>

lemma convertMessage_tagged:
  assumes "map_of m (js ''type'') = Some (JString t)"
    and "map_of Message t = Some declared"
  shows "convertMessage numstr (JObject m) =
           (if list_all (has_field m) declared
               \<and> (declared = [] \<longrightarrow> set (map fst m) = {js ''type''})
            then Inr (Success (JObject m)) else Inr (Failure invalid_format))"
  using assms(2) assms(1) only_key [OF assms(1)]
  apply (simp add: Message_def split: if_splits)
  apply (clarsimp simp add: validators_def shape_simps [symmetric])+
  done

subsection \<open>Decoding ASCII, and what follows a complete text\<close>

lemma utf8_decode_ascii:
  "list_all (\<lambda>b. b < 0x80) bs \<Longrightarrow> utf8_decode utf8_start bs = map unat bs"
proof (induction bs)
  case Nil
  show ?case by (simp add: utf8_start_def)
next
  case (Cons b bs)
  then have "unat b \<le> 0x7F"
    by (simp add: word_less_nat_alt)
  then have "utf8_step utf8_start (unat b) = ([unat b], utf8_start)"
    by (simp add: utf8_step_def utf8_lead_def utf8_start_def)
  with Cons show ?case by simp
qed

lemma TextDecoder_decode_ascii:
  assumes "list_all (\<lambda>b. b < 0x80) bs"
  shows "TextDecoder_decode bs = map unat bs"
proof -
  have small: "list_all (\<lambda>c. c < 0x80) (map unat bs)"
    using assms by (induction bs) (auto simp: word_less_nat_alt)
  have units: "list_all (\<lambda>c. c < 0x80) cs \<Longrightarrow> concat (map utf16_units cs) = cs" for cs
    by (induction cs) (auto simp: utf16_units_def)
  have bom: "list_all (\<lambda>c. c < 0x80) cs \<Longrightarrow> drop_bom cs = cs" for cs :: "nat list"
    by (cases cs) (auto simp: drop_bom_def)
  show ?thesis
    unfolding TextDecoder_decode_def utf8_decode_ascii [OF assms] bom [OF small]
    by (rule units [OF small])
qed

text \<open>
  A byte that is not ASCII, alone in a string literal, is decoded to \<open>U+FFFD\<close> and does
  not disturb what follows.
\<close>

lemma utf8_lone_byte:
  assumes "128 \<le> n"
  shows "(case utf8_step utf8_start n of (out, s) \<Rightarrow> out @ utf8_decode s (0x22 # bs))
           = 0xFFFD # 0x22 # utf8_decode utf8_start bs"
  using assms
  by (auto simp add: utf8_step_def utf8_lead_def utf8_start_def split: if_splits)

lemma utf8_decode_ascii_step:
  "n < 128 \<Longrightarrow> utf8_step utf8_start n = ([n], utf8_start)"
  by (simp add: utf8_step_def utf8_lead_def utf8_start_def)

lemma decode_lone_byte:
  assumes "0x80 \<le> (b :: byte)"
  shows "TextDecoder_decode [0x5B, 0x22, b, 0x22, 0x5D] = [0x5B, 0x22, 0xFFFD, 0x22, 0x5D]"
proof -
  have "128 \<le> unat b"
    using assms by (simp add: word_le_nat_alt)
  from utf8_lone_byte [OF this, of "[0x5D]"]
  have "utf8_decode utf8_start [0x5B, 0x22, b, 0x22, 0x5D] = [0x5B, 0x22, 0xFFFD, 0x22, 0x5D]"
    by (simp add: utf8_decode_ascii_step) (simp add: utf8_start_def)
  then show ?thesis
    by (simp add: TextDecoder_decode_def drop_bom_def utf16_units_def)
qed

lemma parse_lone_byte:
  assumes "0x80 \<le> (b :: byte)"
  shows "parseMessage [0x5B, 0x22, b, 0x22, 0x5D] = Inr (Success (JArray [JString [0xFFFD]]))"
  by (simp add: parseMessage_def decode_lone_byte [OF assms] parse_defs)

lemma fold_Bad: "fold parser_step cs (Bad, st) = (Bad, if cs = [] then st else [])"
  by (induction cs arbitrary: st) auto

lemma parser_result_Inr:
  assumes "parser_result p = Inr v" and "\<forall>n. v \<noteq> JNumber n"
  shows "\<exists>st. p = (Done v, st)"
  using assms by (cases p rule: parser_result.cases) (auto split: if_splits)

lemma JSON_parse_garbage:
  assumes "JSON_parse text = Inr v" and "\<forall>n. v \<noteq> JNumber n" and "\<not> whitespace c"
  shows "JSON_parse (text @ c # rest) = Inl SyntaxError"
proof -
  obtain st where "fold parser_step text (Value, []) = (Done v, st)"
    using parser_result_Inr assms(1,2) unfolding JSON_parse_def by blast
  then have "fold parser_step (text @ c # rest) (Value, []) = fold parser_step rest (Bad, [])"
    using assms(3) by (simp add: after_text_def)
  then show ?thesis
    by (simp add: JSON_parse_def fold_Bad)
qed

lemma JSON_parse_error: "JSON_parse text = Inl e \<Longrightarrow> e = SyntaxError"
  unfolding JSON_parse_def
  by (cases "fold parser_step text (Value, [])" rule: parser_result.cases)
     (auto split: if_splits)

subsection \<open>Quoting\<close>

lemma length_quote_units: "length s \<le> length (quote_units s)"
proof (induction s rule: quote_units.induct)
  case (2 c)
  show ?case by (simp add: quote_unit_def unicode_escape_def)
next
  case (3 c d cs)
  have "1 \<le> length (quote_unit c)"
    by (simp add: quote_unit_def unicode_escape_def)
  with 3 show ?case by auto
qed simp

text \<open>
  \<open>JSON.parse\<close> reads a quoted string back: the parser, inside a string, turns the
  quoted code units into the code units they stand for.
\<close>

lemma hex_value_hex_digit:
  assumes "d < 16"
  shows "hex_value (hex_digit d) = Some d"
proof (cases "d < 10")
  case True
  then show ?thesis by (simp add: hex_value_def hex_digit_def)
next
  case False
  with assms have "hex_digit d = 87 + d" "87 + d \<le> 102" "97 \<le> 87 + d"
    by (simp_all add: hex_digit_def)
  then show ?thesis by (simp add: hex_value_def)
qed

lemma hex_digits_value:
  assumes "c < 65536"
  shows "((c div 4096 mod 16 * 16 + c div 256 mod 16) * 16 + c div 16 mod 16) * 16 + c mod 16 = (c::nat)"
proof -
  have e1: "c div 16 * 16 + c mod 16 = c"
    by simp
  have "c div 16 div 16 = c div 256" "c div 256 div 16 = c div 4096"
    by (simp_all add: div_mult2_eq [symmetric])
  with div_mult_mod_eq [of "c div 16" 16] div_mult_mod_eq [of "c div 256" 16]
  have e2: "c div 256 * 16 + c div 16 mod 16 = c div 16"
    and e3: "c div 4096 * 16 + c div 256 mod 16 = c div 256"
    by simp_all
  have e4: "c div 4096 mod 16 = c div 4096"
    using assms by (simp add: div_less_iff_less_mult)
  show ?thesis
    by (simp only: e4 e3 e2 e1)
qed

lemma parse_hex_digit:
  assumes "d < 16"
  shows "parser_step (hex_digit d) (Hex k acc n v, st) =
           (if n = 3 then (Str k (acc @ [v * 16 + d]), st) else (Hex k acc (n + 1) (v * 16 + d), st))"
  by (simp add: hex_value_hex_digit [OF assms])

lemma parse_unicode_escape:
  assumes "c < 65536"
  shows "fold parser_step (unicode_escape c) (Str k acc, st) = (Str k (acc @ [c]), st)"
proof -
  define d1 d2 d3 d4 where "d1 = c div 4096 mod 16" and "d2 = c div 256 mod 16"
    and "d3 = c div 16 mod 16" and "d4 = c mod 16"
  have d: "d1 < 16" "d2 < 16" "d3 < 16" "d4 < 16"
    by (simp_all add: d1_def d2_def d3_def d4_def)
  have v: "((d1 * 16 + d2) * 16 + d3) * 16 + d4 = c"
    unfolding d1_def d2_def d3_def d4_def by (rule hex_digits_value [OF assms])
  have "fold parser_step [0x5C, ch CHR ''u'', hex_digit d1, hex_digit d2, hex_digit d3, hex_digit d4]
          (Str k acc, st) = (Str k (acc @ [((d1 * 16 + d2) * 16 + d3) * 16 + d4]), st)"
    by (simp add: parse_hex_digit [OF d(1)] parse_hex_digit [OF d(2)] parse_hex_digit [OF d(3)]
          parse_hex_digit [OF d(4)] del: parser_step.simps(10))
  from this [unfolded v] show ?thesis
    unfolding unicode_escape_def d1_def d2_def d3_def d4_def .
qed

lemma parse_plain_unit:
  assumes "c \<noteq> 0x22" "c \<noteq> 0x5C" "\<not> c < 0x20"
  shows "parser_step c (Str k acc, st) = (Str k (acc @ [c]), st)"
  using assms by simp

lemma parse_quote_unit:
  "fold parser_step (quote_unit c) (Str k acc, st) = (Str k (acc @ [c]), st)"
proof (cases "c < 0x20 \<or> high_surrogate c \<or> low_surrogate c")
  case True
  then have "c < 65536"
    by (auto simp: high_surrogate_def low_surrogate_def)
  note esc = parse_unicode_escape [OF this]
  show ?thesis
  proof (cases "c = 0x08 \<or> c = 0x09 \<or> c = 0x0A \<or> c = 0x0C \<or> c = 0x0D \<or> c = 0x22 \<or> c = 0x5C")
    case True
    then show ?thesis
      by (elim disjE) (simp_all add: quote_unit_def escape_unit_def)
  next
    case False
    with \<open>c < 0x20 \<or> high_surrogate c \<or> low_surrogate c\<close>
    have "quote_unit c = unicode_escape c"
      by (simp add: quote_unit_def)
    with esc show ?thesis by simp
  qed
next
  case False
  show ?thesis
  proof (cases "c = 0x22 \<or> c = 0x5C")
    case True
    then show ?thesis
      by (elim disjE) (simp_all add: quote_unit_def escape_unit_def)
  next
    case False
    with \<open>\<not> (c < 0x20 \<or> high_surrogate c \<or> low_surrogate c)\<close>
    have "quote_unit c = [c]"
      by (auto simp add: quote_unit_def)
    with False \<open>\<not> (c < 0x20 \<or> high_surrogate c \<or> low_surrogate c)\<close> show ?thesis
      by (simp add: parse_plain_unit)
  qed
qed

lemma parse_quote_units:
  "fold parser_step (quote_units s) (Str k acc, st) = (Str k (acc @ s), st)"
proof (induction s arbitrary: acc rule: quote_units.induct)
  case 1
  show ?case by simp
next
  case (2 c)
  show ?case by (simp add: parse_quote_unit)
next
  case (3 c d cs)
  show ?case
  proof (cases "high_surrogate c \<and> low_surrogate d")
    case True
    then have plain: "c \<noteq> 0x22" "c \<noteq> 0x5C" "\<not> c < 0x20" "d \<noteq> 0x22" "d \<noteq> 0x5C" "\<not> d < 0x20"
      by (auto simp: high_surrogate_def low_surrogate_def)
    have "quote_units (c # d # cs) = [c, d] @ quote_units cs"
      using True by simp
    then have "fold parser_step (quote_units (c # d # cs)) (Str k acc, st)
            = fold parser_step (quote_units cs) (Str k (acc @ [c, d]), st)"
      by (simp only: fold_append o_apply fold_simps parse_plain_unit [OF plain(1-3)]
            parse_plain_unit [OF plain(4-6)] append_assoc append_Cons append_Nil)
    also have "\<dots> = (Str k ((acc @ [c, d]) @ cs), st)"
      using True by (rule 3(1))
    finally show ?thesis by simp
  next
    case False
    then have "quote_units (c # d # cs) = quote_unit c @ quote_units (d # cs)"
      by auto
    then have "fold parser_step (quote_units (c # d # cs)) (Str k acc, st)
            = fold parser_step (quote_units (d # cs)) (Str k (acc @ [c]), st)"
      by (simp only: fold_append o_apply parse_quote_unit)
    also have "\<dots> = (Str k ((acc @ [c]) @ d # cs), st)"
      using False by (rule 3(2))
    finally show ?thesis by simp
  qed
qed

lemma JSON_parse_QuoteJSONString: "JSON_parse (QuoteJSONString s) = Inr (JString s)"
proof -
  have "fold parser_step (QuoteJSONString s) (Value, [])
          = parser_step 0x22 (fold parser_step (quote_units s) (Str False [], []))"
    by (simp add: QuoteJSONString_def start_value_def whitespace_def del: parser_step.simps(8))
  then show ?thesis
    by (simp add: JSON_parse_def parse_quote_units)
qed

subsection \<open>The read loop\<close>

lemma sendError_written:
  "sendError conn (js ''INVALID_FORMAT'') d = conn\<lparr>written := written conn @ [format_error d]\<rparr>"
  by (simp add: sendError_def format_error_def)

lemma on_read_eq:
  "on_read numstr bytes conn =
     (conn\<lparr>written := written conn @ replies numstr bytes, parsed := parsed conn @ [bytes]\<rparr>,
      goes_on numstr bytes)"
  by (simp add: replies_def goes_on_def on_read_def sendError_written accepted_def Let_def
           split: sum.split Result.split)

lemma replies_cases:
  "replies numstr bytes = [] \<or> replies numstr bytes = [format_error not_valid_json]
   \<or> replies numstr bytes = [format_error (js ''Invalid message type'')]"
  by (simp add: replies_def on_read_def sendError_written accepted_def Let_def parseMessage_def
           split: sum.split Result.split)

lemma handler_Data:
  "handler numstr (Data bs # evs) conn =
     (if \<not> goes_on numstr (take 1024 bs) then
        conn\<lparr>written := written conn @ replies numstr (take 1024 bs),
             parsed := parsed conn @ [take 1024 bs], reading := False\<rparr>
      else handler numstr (after_read bs evs)
             (conn\<lparr>written := written conn @ replies numstr (take 1024 bs),
                   parsed := parsed conn @ [take 1024 bs]\<rparr>))"
  by (simp add: on_read_eq)

lemma after_read_weight:
  "sum_list (map event_weight (after_read bs evs)) < sum_list (map event_weight (Data bs # evs))"
  by (auto simp: after_read_def not_le)

lemma events_induct [case_names Nil End_of_stream Read_failure Data]:
  assumes "P []"
    and "\<And>evs. P (End_of_stream # evs)"
    and "\<And>evs. P (Read_failure # evs)"
    and "\<And>bs evs. P (after_read bs evs) \<Longrightarrow> P (Data bs # evs)"
  shows "P evs"
proof (induction "sum_list (map event_weight evs)" arbitrary: evs rule: less_induct)
  case less
  show ?case
  proof (cases evs)
    case Nil
    with assms(1) show ?thesis by simp
  next
    case (Cons e evs')
    show ?thesis
    proof (cases e)
      case (Data bs)
      have "P (after_read bs evs')"
        using after_read_weight [of bs evs'] Cons Data by (intro less) simp
      with assms(4) Cons Data show ?thesis by simp
    next
      case End_of_stream
      with assms(2) Cons show ?thesis by simp
    next
      case Read_failure
      with assms(3) Cons show ?thesis by simp
    qed
  qed
qed

text \<open>
  The loop on a connection that has a history is the loop on a fresh connection, with
  the history in front.
\<close>

lemma handler_frame:
  "handler numstr evs conn =
     conn\<lparr>written := written conn @ written (handler numstr evs accepted),
          parsed := parsed conn @ parsed (handler numstr evs accepted),
          reading := reading conn \<and> reading (handler numstr evs accepted)\<rparr>"
proof (induction evs arbitrary: conn rule: events_induct)
  case (Data bs evs)
  let ?c1 = "conn\<lparr>written := written conn @ replies numstr (take 1024 bs),
                   parsed := parsed conn @ [take 1024 bs]\<rparr>"
  let ?c2 = "accepted\<lparr>written := written accepted @ replies numstr (take 1024 bs),
                   parsed := parsed accepted @ [take 1024 bs]\<rparr>"
  show ?case
  proof (cases "goes_on numstr (take 1024 bs)")
    case True
    define h where "h = handler numstr (after_read bs evs) accepted"
    have a: "handler numstr (Data bs # evs) conn = handler numstr (after_read bs evs) ?c1"
      using True by (simp only: handler_Data) simp
    have b: "handler numstr (Data bs # evs) accepted = handler numstr (after_read bs evs) ?c2"
      using True by (simp only: handler_Data) simp
    have ih1: "handler numstr (after_read bs evs) ?c1 =
        ?c1\<lparr>written := written ?c1 @ written h, parsed := parsed ?c1 @ parsed h,
             reading := reading ?c1 \<and> reading h\<rparr>"
      unfolding h_def by (rule Data)
    have ih2: "handler numstr (after_read bs evs) ?c2 =
        ?c2\<lparr>written := written ?c2 @ written h, parsed := parsed ?c2 @ parsed h,
             reading := reading ?c2 \<and> reading h\<rparr>"
      unfolding h_def by (rule Data)
    show ?thesis
      unfolding a b ih1 ih2 by (simp add: accepted_def)
  next
    case False
    then show ?thesis
      by (simp only: handler_Data) (simp add: accepted_def)
  qed
qed (simp_all add: accepted_def)

lemma written_Data:
  "written (handleConnection numstr (Data bs # evs)) =
     replies numstr (take 1024 bs) @
     (if goes_on numstr (take 1024 bs) then written (handleConnection numstr (after_read bs evs))
      else [])"
  unfolding handleConnection_def handler_Data
  by (subst handler_frame) (simp add: accepted_def)

lemma parsed_Data:
  "parsed (handleConnection numstr (Data bs # evs)) =
     take 1024 bs #
     (if goes_on numstr (take 1024 bs) then parsed (handleConnection numstr (after_read bs evs))
      else [])"
  unfolding handleConnection_def handler_Data
  by (subst handler_frame) (simp add: accepted_def)

lemma reading_Data:
  "reading (handleConnection numstr (Data bs # evs)) \<longleftrightarrow>
     goes_on numstr (take 1024 bs) \<and> reading (handleConnection numstr (after_read bs evs))"
  unfolding handleConnection_def handler_Data
  by (subst handler_frame) (simp add: accepted_def)

lemma handleConnection_simps:
  "handleConnection numstr [] = accepted"
  "handleConnection numstr (End_of_stream # evs) = accepted\<lparr>reading := False\<rparr>"
  "handleConnection numstr (Read_failure # evs) = accepted\<lparr>reading := False\<rparr>"
  by (simp_all add: handleConnection_def)

lemma closed_handleConnection: "\<not> closed (handleConnection numstr evs)"
  unfolding handleConnection_def
  by (subst handler_frame) (simp add: accepted_def)

lemma written_format_errors:
  "set (written (handleConnection numstr evs))
     \<subseteq> {format_error not_valid_json, format_error (js ''Invalid message type'')}"
proof (induction evs rule: events_induct)
  case (Data bs evs)
  then show ?case
    using replies_cases [of numstr "take 1024 bs"] by (auto simp: written_Data)
qed (simp_all add: handleConnection_simps accepted_def)

lemma parsed_bound: "list_all (\<lambda>x. length x \<le> 1024) (parsed (handleConnection numstr evs))"
  by (induction evs rule: events_induct)
     (simp_all add: handleConnection_simps accepted_def parsed_Data)

lemma reads_bound: "list_all (\<lambda>x. length x \<le> 1024) (reads evs)"
  by (induction evs rule: events_induct) simp_all

lemma parsed_reads:
  "prefix (parsed (handleConnection numstr evs)) (reads evs)
   \<and> (reading (handleConnection numstr evs)
        \<longrightarrow> parsed (handleConnection numstr evs) = reads evs)"
  by (induction evs rule: events_induct)
     (simp_all add: handleConnection_simps accepted_def parsed_Data reading_Data)

lemma reads_one_read: "list_all one_read evs \<Longrightarrow> reads evs = map data_bytes evs"
proof (induction evs)
  case Nil
  show ?case by simp
next
  case (Cons e evs)
  then obtain bs where "e = Data bs" and "length bs \<le> 1024"
    by (cases e) auto
  with Cons show ?case
    by (simp add: after_read_def)
qed



lemma replies_not_json:
  assumes "parseMessage bytes = Inr (Failure e)"
  shows "replies numstr bytes = [format_error e]" and "goes_on numstr bytes"
  using assms by (simp_all add: replies_def goes_on_def on_read_def sendError_written accepted_def)

lemma replies_invalid_type:
  assumes "parseMessage bytes = Inr (Success m)" and "ToString numstr m = Inr t"
    and "\<not> isValidMessageType m"
  shows "replies numstr bytes = [format_error (js ''Invalid message type'')]"
    and "goes_on numstr bytes"
  using assms by (simp_all add: replies_def goes_on_def on_read_def sendError_written accepted_def)


lemma format_error_invalid_type:
  \<open>format_error (js ''Invalid message type'') =
     ascii ''{"type":"error","code":"INVALID_FORMAT","message":"Invalid message type"}''\<close>
  by (simp add: format_error_def ascii_def encode_defs stringify_defs js_def)


lemma one_read_simps:
  assumes "length bs \<le> 1024"
  shows "written (handleConnection numstr (Data bs # evs)) =
           replies numstr bs @
           (if goes_on numstr bs then written (handleConnection numstr evs) else [])"
    and "parsed (handleConnection numstr (Data bs # evs)) =
           bs # (if goes_on numstr bs then parsed (handleConnection numstr evs) else [])"
    and "reading (handleConnection numstr (Data bs # evs)) \<longleftrightarrow>
           goes_on numstr bs \<and> reading (handleConnection numstr evs)"
  using assms by (simp_all add: written_Data parsed_Data reading_Data after_read_def)

section \<open>The claims\<close>

text \<open>
  C1. The claim: the error message that \<open>sendError\<close> serializes has the fields
  \<open>type\<close>, \<open>name\<close> and \<open>description\<close>, and satisfies the \<open>error\<close> validator of
  \<open>convertMessage\<close>. The code names the fields \<open>code\<close> and \<open>message\<close>: for every
  code and description the text written is
  \<open>{"type":"error","code":<code>,"message":<description>}\<close>, and for the call
  \<open>sendError(conn, "INVALID_FORMAT", "Invalid message type")\<close> of the read loop the
  bytes written parse to an object that \<open>convertMessage\<close> refuses.
\<close>

theorem sendError_field_names:
  \<open>written (sendError conn code message) =
     written conn @
     [TextEncoder_encode
        (js ''{"type":"error","code":'' @ QuoteJSONString code @
         js '',"message":'' @ QuoteJSONString message @ js ''}'')]
   \<and> written (sendError accepted (js ''INVALID_FORMAT'') (js ''Invalid message type'')) =
       [ascii ''{"type":"error","code":"INVALID_FORMAT","message":"Invalid message type"}'']
   \<and> parseMessage
         (ascii ''{"type":"error","code":"INVALID_FORMAT","message":"Invalid message type"}'') =
       Inr (Success (JObject [(js ''type'', JString (js ''error'')),
                              (js ''code'', JString (js ''INVALID_FORMAT'')),
                              (js ''message'', JString (js ''Invalid message type''))]))
   \<and> convertMessage numstr
         (JObject [(js ''type'', JString (js ''error'')),
                   (js ''code'', JString (js ''INVALID_FORMAT'')),
                   (js ''message'', JString (js ''Invalid message type''))]) =
       Inr (Failure invalid_format)\<close>
proof (intro conjI)
  show \<open>written (sendError conn code message) =
     written conn @
     [TextEncoder_encode
        (js ''{"type":"error","code":'' @ QuoteJSONString code @
         js '',"message":'' @ QuoteJSONString message @ js ''}'')]\<close>
    by (simp add: sendError_def JSON_stringify_strings_def QuoteJSONString_def quote_unit_def
          high_surrogate_def low_surrogate_def js_def)
  show \<open>written (sendError accepted (js ''INVALID_FORMAT'') (js ''Invalid message type'')) =
       [ascii ''{"type":"error","code":"INVALID_FORMAT","message":"Invalid message type"}'']\<close>
    by (simp add: sendError_def accepted_def ascii_def encode_defs stringify_defs js_def)
  show \<open>parseMessage
         (ascii ''{"type":"error","code":"INVALID_FORMAT","message":"Invalid message type"}'') =
       Inr (Success (JObject [(js ''type'', JString (js ''error'')),
                              (js ''code'', JString (js ''INVALID_FORMAT'')),
                              (js ''message'', JString (js ''Invalid message type''))]))\<close>
    by (simp add: ascii_def parseMessage_def decode_defs parse_defs js_def)
  show \<open>convertMessage numstr
         (JObject [(js ''type'', JString (js ''error'')),
                   (js ''code'', JString (js ''INVALID_FORMAT'')),
                   (js ''message'', JString (js ''Invalid message type''))]) =
       Inr (Failure invalid_format)\<close>
    by (simp add: validators_def)
qed

text \<open>
  C2. The claim: the read loop validates each frame against the registry of eleven
  variants, and the frame \<open>{"type":"hello","version":"0.10.0","agent":"test"}\<close> with its
  newline is accepted without an error reply. The loop validates with
  \<open>isValidMessageType\<close>, whose list is \<open>connect\<close>, \<open>disconnect\<close>, \<open>message\<close>: the
  frame, which \<open>convertMessage\<close> accepts, is answered with an error.
\<close>

theorem handleConnection_rejects_hello:
  \<open>written (handleConnection numstr
       [Data (ascii ''{"type":"hello","version":"0.10.0","agent":"test"}'' @ [0x0A])]) =
     [ascii ''{"type":"error","code":"INVALID_FORMAT","message":"Invalid message type"}'']
   \<and> parseMessage (ascii ''{"type":"hello","version":"0.10.0","agent":"test"}'' @ [0x0A]) =
       Inr (Success (JObject [(js ''type'', JString (js ''hello'')),
                              (js ''version'', JString (js ''0.10.0'')),
                              (js ''agent'', JString (js ''test''))]))
   \<and> convertMessage numstr
         (JObject [(js ''type'', JString (js ''hello'')),
                   (js ''version'', JString (js ''0.10.0'')),
                   (js ''agent'', JString (js ''test''))]) =
       Inr (Success (JObject [(js ''type'', JString (js ''hello'')),
                              (js ''version'', JString (js ''0.10.0'')),
                              (js ''agent'', JString (js ''test''))]))\<close>
proof (intro conjI)
  show parse: \<open>parseMessage (ascii ''{"type":"hello","version":"0.10.0","agent":"test"}'' @ [0x0A]) =
       Inr (Success (JObject [(js ''type'', JString (js ''hello'')),
                              (js ''version'', JString (js ''0.10.0'')),
                              (js ''agent'', JString (js ''test''))]))\<close>
    by (simp add: ascii_def parseMessage_def decode_defs parse_defs js_def)
  have size: \<open>length (ascii ''{"type":"hello","version":"0.10.0","agent":"test"}'' @ [0x0A :: byte]) \<le> 1024\<close>
    by (simp add: ascii_def)
  have \<open>replies numstr (ascii ''{"type":"hello","version":"0.10.0","agent":"test"}'' @ [0x0A]) =
          [format_error (js ''Invalid message type'')]\<close>
    by (rule replies_invalid_type [OF parse]) (simp_all add: validTypes_def)
  then show \<open>written (handleConnection numstr
       [Data (ascii ''{"type":"hello","version":"0.10.0","agent":"test"}'' @ [0x0A])]) =
     [ascii ''{"type":"error","code":"INVALID_FORMAT","message":"Invalid message type"}'']\<close>
    by (simp only: one_read_simps [OF size] format_error_invalid_type)
       (simp add: handleConnection_simps accepted_def)
  show \<open>convertMessage numstr
         (JObject [(js ''type'', JString (js ''hello'')),
                   (js ''version'', JString (js ''0.10.0'')),
                   (js ''agent'', JString (js ''test''))]) =
       Inr (Success (JObject [(js ''type'', JString (js ''hello'')),
                              (js ''version'', JString (js ''0.10.0'')),
                              (js ''agent'', JString (js ''test''))]))\<close>
    by (simp add: validators_def)
qed

text \<open>
  C3. The claim: while the handshake state is \<open>AwaitingHello\<close>, a first message that
  is not a valid \<open>hello\<close> (for example \<open>getpeers\<close>) causes an \<open>INVALID_HANDSHAKE\<close>
  error and the connection is closed. The counterexample: a first frame
  \<open>{"type":"getpeers"}\<close> is answered with an error whose code is \<open>INVALID_FORMAT\<close>; the
  connection is not closed and the loop is still reading.
\<close>

theorem getpeers_first_counterexample:
  \<open>written (handleConnection id [Data (ascii ''{"type":"getpeers"}'' @ [0x0A])]) =
     [ascii ''{"type":"error","code":"INVALID_FORMAT","message":"Invalid message type"}'']
   \<and> \<not> closed (handleConnection id [Data (ascii ''{"type":"getpeers"}'' @ [0x0A])])
   \<and> reading (handleConnection id [Data (ascii ''{"type":"getpeers"}'' @ [0x0A])])\<close>
proof -
  have parse: \<open>parseMessage (ascii ''{"type":"getpeers"}'' @ [0x0A]) =
      Inr (Success (JObject [(js ''type'', JString (js ''getpeers''))]))\<close>
    by (simp add: ascii_def parseMessage_def decode_defs parse_defs js_def)
  have size: \<open>length (ascii ''{"type":"getpeers"}'' @ [0x0A :: byte]) \<le> 1024\<close>
    by (simp add: ascii_def)
  have \<open>replies id (ascii ''{"type":"getpeers"}'' @ [0x0A]) =
          [format_error (js ''Invalid message type'')]\<close>
    and \<open>goes_on id (ascii ''{"type":"getpeers"}'' @ [0x0A])\<close>
    by (rule replies_invalid_type [OF parse]; simp add: validTypes_def)+
  then show ?thesis
    by (simp only: one_read_simps [OF size] format_error_invalid_type closed_handleConnection)
       (simp add: handleConnection_simps accepted_def)
qed

text \<open>
  C3, amended. The read loop keeps no handshake state and does not close the
  connection: whatever arrives, the connection is never closed by the loop and every
  message written is an error with code \<open>INVALID_FORMAT\<close> (one of two descriptions),
  never \<open>INVALID_HANDSHAKE\<close>; and after the answer to a first message that
  \<open>isValidMessageType\<close> refuses, the loop goes on with the following reads as on a fresh
  connection.
\<close>

theorem handleConnection_no_handshake:
  "\<not> closed (handleConnection numstr evs)
   \<and> set (written (handleConnection numstr evs))
       \<subseteq> {format_error not_valid_json, format_error (js ''Invalid message type'')}
   \<and> (length bs \<le> 1024 \<and> parseMessage bs = Inr (Success m) \<and> ToString numstr m = Inr t
        \<and> \<not> isValidMessageType m
      \<longrightarrow> written (handleConnection numstr (Data bs # evs)) =
            format_error (js ''Invalid message type'') # written (handleConnection numstr evs)
          \<and> reading (handleConnection numstr (Data bs # evs)) =
            reading (handleConnection numstr evs))"
proof (intro conjI impI)
  show "\<not> closed (handleConnection numstr evs)"
    by (rule closed_handleConnection)
  show "set (written (handleConnection numstr evs))
       \<subseteq> {format_error not_valid_json, format_error (js ''Invalid message type'')}"
    by (rule written_format_errors)
next
  assume a: "length bs \<le> 1024 \<and> parseMessage bs = Inr (Success m) \<and> ToString numstr m = Inr t
        \<and> \<not> isValidMessageType m"
  then have size: "length bs \<le> 1024" and parse: "parseMessage bs = Inr (Success m)"
    and conv: "ToString numstr m = Inr t" and invalid: "\<not> isValidMessageType m"
    by simp_all
  note answer = replies_invalid_type [OF parse conv invalid]
  show "written (handleConnection numstr (Data bs # evs)) =
            format_error (js ''Invalid message type'') # written (handleConnection numstr evs)"
    by (simp add: one_read_simps [OF size] answer)
  show "reading (handleConnection numstr (Data bs # evs)) =
            reading (handleConnection numstr evs)"
    by (simp add: one_read_simps [OF size] answer)
qed

text \<open>
  An instance: a first frame \<open>{"type":"getpeers"}\<close>, then the end of the stream.
\<close>

theorem handleConnection_no_handshake_witness:
  \<open>length (ascii ''{"type":"getpeers"}'' @ [0x0A :: byte]) \<le> 1024
   \<and> parseMessage (ascii ''{"type":"getpeers"}'' @ [0x0A]) =
       Inr (Success (JObject [(js ''type'', JString (js ''getpeers''))]))
   \<and> ToString id (JObject [(js ''type'', JString (js ''getpeers''))]) = Inr (js ''[object Object]'')
   \<and> \<not> isValidMessageType (JObject [(js ''type'', JString (js ''getpeers''))])
   \<and> \<not> closed (handleConnection id [End_of_stream])
   \<and> written (handleConnection id [Data (ascii ''{"type":"getpeers"}'' @ [0x0A]), End_of_stream]) =
       [format_error (js ''Invalid message type'')]
   \<and> \<not> reading (handleConnection id [Data (ascii ''{"type":"getpeers"}'' @ [0x0A]), End_of_stream])\<close>
proof -
  have size: \<open>length (ascii ''{"type":"getpeers"}'' @ [0x0A :: byte]) \<le> 1024\<close>
    by (simp add: ascii_def)
  have parse: \<open>parseMessage (ascii ''{"type":"getpeers"}'' @ [0x0A]) =
      Inr (Success (JObject [(js ''type'', JString (js ''getpeers''))]))\<close>
    by (simp add: ascii_def parseMessage_def decode_defs parse_defs js_def)
  have conv: "ToString id (JObject [(js ''type'', JString (js ''getpeers''))]) = Inr (js ''[object Object]'')"
    by simp
  have invalid: "\<not> isValidMessageType (JObject [(js ''type'', JString (js ''getpeers''))])"
    by (simp add: validTypes_def)
  show ?thesis
    using handleConnection_no_handshake
      [of id "[End_of_stream]" \<open>ascii ''{"type":"getpeers"}'' @ [0x0A]\<close>
          "JObject [(js ''type'', JString (js ''getpeers''))]" "js ''[object Object]''"]
      size parse conv invalid
    by (simp add: handleConnection_simps accepted_def)
qed

text \<open>
  C4. The claim: \<open>convertMessage\<close> fails on every object whose \<open>type\<close> is not one of
  the eleven tags, and never throws. The lookup \<open>validators[type]\<close> also finds what the
  object \<open>validators\<close> inherits: \<open>{"type":"constructor"}\<close> is accepted, and
  \<open>{"type":"valueOf"}\<close> makes the call throw a \<open>TypeError\<close>; neither is a tag.
\<close>

theorem convertMessage_inherited_property:
  "convertMessage numstr (JObject [(js ''type'', JString (js ''constructor''))]) =
     Inr (Success (JObject [(js ''type'', JString (js ''constructor''))]))
   \<and> convertMessage numstr (JObject [(js ''type'', JString (js ''valueOf''))]) = Inl TypeError
   \<and> js ''constructor'' \<notin> set (map fst validators)
   \<and> js ''valueOf'' \<notin> set (map fst validators)
   \<and> map fst validators =
       [js ''hello'', js ''error'', js ''getpeers'', js ''getmempool'', js ''getchaintip'',
        js ''peers'', js ''getobject'', js ''ihaveobject'', js ''object'', js ''mempool'',
        js ''chaintip'']"
  by (simp add: validators_def Object_prototype_def)

text \<open>
  C5. The claim: for each of the eleven variants \<open>convertMessage\<close> succeeds only if
  the object carries exactly the declared fields; any extra field makes it fail. The
  counterexample: a \<open>hello\<close> object with an extra field is accepted.
\<close>

theorem hello_extra_field_counterexample:
  "convertMessage id
     (JObject [(js ''type'', JString (js ''hello'')), (js ''version'', JString (js ''0.10.0'')),
               (js ''agent'', JString (js ''test'')), (js ''extra'', JBool True)]) =
   Inr (Success
     (JObject [(js ''type'', JString (js ''hello'')), (js ''version'', JString (js ''0.10.0'')),
               (js ''agent'', JString (js ''test'')), (js ''extra'', JBool True)]))"
  by (simp add: validators_def)

text \<open>
  C5, amended. For an object whose \<open>type\<close> is the tag of one of the eleven variants,
  \<open>convertMessage\<close> returns a success, whose value is the object, or the failure, and
  it returns a success only if every field the variant declares is present with a value
  of the kind of its declared type (a string; an array of strings; for \<open>object\<close>, a
  non-null object or array) and, for the variants that declare no field (\<open>getpeers\<close>,
  \<open>getmempool\<close>, \<open>getchaintip\<close>), \<open>type\<close> is the only key. So a missing declared
  field makes validation fail, and for those three variants so does any extra field.
\<close>

theorem convertMessage_declared_fields:
  assumes "map_of m (js ''type'') = Some (JString t)"
    and "map_of Message t = Some declared"
  shows "(convertMessage numstr (JObject m) = Inr (Success (JObject m))
          \<or> convertMessage numstr (JObject m) = Inr (Failure invalid_format))
         \<and> (\<not> (list_all (has_field m) declared
                 \<and> (declared = [] \<longrightarrow> set (map fst m) = {js ''type''}))
            \<longrightarrow> convertMessage numstr (JObject m) = Inr (Failure invalid_format))"
  by (simp only: convertMessage_tagged [OF assms]) simp

text \<open>
  Two instances: a \<open>hello\<close> object without \<open>version\<close> is refused, and so is a
  \<open>getpeers\<close> object with a second key.
\<close>

theorem convertMessage_declared_fields_witness:
  "map_of [(js ''type'', JString (js ''hello'')), (js ''agent'', JString (js ''test''))] (js ''type'')
     = Some (JString (js ''hello''))
   \<and> map_of Message (js ''hello'') = Some [(js ''version'', T_string), (js ''agent'', T_string)]
   \<and> \<not> list_all (has_field [(js ''type'', JString (js ''hello'')), (js ''agent'', JString (js ''test''))])
          [(js ''version'', T_string), (js ''agent'', T_string)]
   \<and> convertMessage id (JObject [(js ''type'', JString (js ''hello'')), (js ''agent'', JString (js ''test''))]) =
       Inr (Failure invalid_format)
   \<and> map_of [(js ''type'', JString (js ''getpeers'')), (js ''extra'', JBool True)] (js ''type'')
       = Some (JString (js ''getpeers''))
   \<and> map_of Message (js ''getpeers'') = Some []
   \<and> set (map fst [(js ''type'', JString (js ''getpeers'')), (js ''extra'', JBool True)]) \<noteq> {js ''type''}
   \<and> convertMessage id (JObject [(js ''type'', JString (js ''getpeers'')), (js ''extra'', JBool True)]) =
       Inr (Failure invalid_format)"
proof -
  have a: "map_of [(js ''type'', JString (js ''hello'')), (js ''agent'', JString (js ''test''))] (js ''type'')
       = Some (JString (js ''hello''))"
    by simp
  have b: "map_of Message (js ''hello'') = Some [(js ''version'', T_string), (js ''agent'', T_string)]"
    by (simp add: Message_def)
  have c: "\<not> list_all (has_field [(js ''type'', JString (js ''hello'')), (js ''agent'', JString (js ''test''))])
          [(js ''version'', T_string), (js ''agent'', T_string)]"
    by (simp add: has_field_def)
  have d: "map_of [(js ''type'', JString (js ''getpeers'')), (js ''extra'', JBool True)] (js ''type'')
       = Some (JString (js ''getpeers''))"
    by simp
  have e: "map_of Message (js ''getpeers'') = Some []"
    by (simp add: Message_def)
  have f: "set (map fst [(js ''type'', JString (js ''getpeers'')), (js ''extra'', JBool True)]) \<noteq> {js ''type''}"
    by auto
  show ?thesis
    using convertMessage_declared_fields [OF a b, of id] convertMessage_declared_fields [OF d e, of id]
      a b c d e f
    by simp
qed

text \<open>
  C6. The claim: an \<open>error\<close> object is accepted only if its \<open>name\<close> is one of the
  twelve error codes. The validator asks only that \<open>name\<close> be a string: an object whose
  \<open>name\<close> is \<open>NOT_AN_ERROR_CODE\<close> is accepted.
\<close>

theorem convertMessage_error_name_unchecked:
  "convertMessage numstr
     (JObject [(js ''type'', JString (js ''error'')),
               (js ''name'', JString (js ''NOT_AN_ERROR_CODE'')),
               (js ''description'', JString (js ''x''))]) =
     Inr (Success (JObject [(js ''type'', JString (js ''error'')),
                            (js ''name'', JString (js ''NOT_AN_ERROR_CODE'')),
                            (js ''description'', JString (js ''x''))]))
   \<and> js ''NOT_AN_ERROR_CODE'' \<notin> set ErrorCode
   \<and> length ErrorCode = 12"
  by (simp add: validators_def ErrorCode_def)

text \<open>
  C7. The claim: \<open>parseMessage\<close> never raises, invalid UTF-8 yields a failure, and a
  success always carries an object or an array. The counterexample: the five bytes
  \<open>5B 22 FF 22 5D\<close>, which are not UTF-8, give a success (the array of the string of
  the one code unit \<open>U+FFFD\<close>), and the bytes of \<open>1\<close> give a success whose value is a
  number.
\<close>

theorem parseMessage_counterexample:
  "parseMessage [0x5B, 0x22, 0xFF, 0x22, 0x5D] = Inr (Success (JArray [JString [0xFFFD]]))
   \<and> parseMessage (ascii ''1'') = Inr (Success (JNumber (js ''1'')))"
  by (simp add: parseMessage_def ascii_def decode_defs parse_defs js_def)

text \<open>
  C7, amended. For every byte slice \<open>parseMessage\<close> returns a Result and never
  raises: a success, or the failure with the text \<open>Message object is not valid JSON\<close>.
  A text that \<open>JSON.parse\<close> rejects yields the failure; in particular trailing garbage
  does: when ASCII bytes parse to a value that is not a number (an object, an array, a
  string, a boolean or \<open>null\<close>), the same bytes followed by any ASCII bytes that do not
  start with white space give the failure. Bytes that are not UTF-8 do not yield a failure
  by themselves: the decoder replaces them by \<open>U+FFFD\<close>, so that a byte from \<open>0x80\<close>
  on, alone in the string literal of an array, gives a success.
\<close>

theorem parseMessage_result:
  "((\<exists>v. parseMessage bytes = Inr (Success v)) \<or> parseMessage bytes = Inr (Failure not_valid_json))
   \<and> (JSON_parse (TextDecoder_decode bytes) = Inl SyntaxError
      \<longrightarrow> parseMessage bytes = Inr (Failure not_valid_json))
   \<and> (list_all (\<lambda>b. b < 0x80) (bytes @ c # rest) \<and> parseMessage bytes = Inr (Success v)
        \<and> (\<forall>n. v \<noteq> JNumber n) \<and> \<not> whitespace (unat c)
      \<longrightarrow> parseMessage (bytes @ c # rest) = Inr (Failure not_valid_json))
   \<and> (0x80 \<le> b
      \<longrightarrow> parseMessage [0x5B, 0x22, b, 0x22, 0x5D] = Inr (Success (JArray [JString [0xFFFD]])))"
proof (intro conjI impI)
  show "(\<exists>v. parseMessage bytes = Inr (Success v)) \<or> parseMessage bytes = Inr (Failure not_valid_json)"
    by (simp add: parseMessage_def split: sum.split)
next
  assume "JSON_parse (TextDecoder_decode bytes) = Inl SyntaxError"
  then show "parseMessage bytes = Inr (Failure not_valid_json)"
    by (simp add: parseMessage_def)
next
  assume a: "list_all (\<lambda>b. b < 0x80) (bytes @ c # rest) \<and> parseMessage bytes = Inr (Success v)
        \<and> (\<forall>n. v \<noteq> JNumber n) \<and> \<not> whitespace (unat c)"
  then have ascii: "list_all (\<lambda>b. b < 0x80) bytes" "list_all (\<lambda>b. b < 0x80) (bytes @ c # rest)"
    by simp_all
  from a have parse: "JSON_parse (map unat bytes) = Inr v"
    by (simp add: parseMessage_def TextDecoder_decode_ascii [OF ascii(1)] split: sum.splits)
  from a have no_number: "\<forall>n. v \<noteq> JNumber n" and garbage: "\<not> whitespace (unat c)"
    by blast+
  have "JSON_parse (map unat bytes @ unat c # map unat rest) = Inl SyntaxError"
    by (rule JSON_parse_garbage [OF parse no_number garbage])
  then show "parseMessage (bytes @ c # rest) = Inr (Failure not_valid_json)"
    by (simp add: parseMessage_def TextDecoder_decode_ascii [OF ascii(2)])
next
  assume "0x80 \<le> b"
  then show "parseMessage [0x5B, 0x22, b, 0x22, 0x5D] = Inr (Success (JArray [JString [0xFFFD]]))"
    by (rule parse_lone_byte)
qed

text \<open>
  An instance: \<open>{"type":"getpeers"}\<close> parses to an object, and followed by \<open>xyz\<close> it
  is refused, as is the malformed \<open>{"type":\<close>; the byte \<open>0xFF\<close> in the string of an
  array is accepted.
\<close>

theorem parseMessage_result_witness:
  \<open>JSON_parse (TextDecoder_decode (ascii ''{"type":'')) = Inl SyntaxError
   \<and> parseMessage (ascii ''{"type":'') = Inr (Failure not_valid_json)
   \<and> list_all (\<lambda>b. b < 0x80) (ascii ''{"type":"getpeers"}'' @ of_char CHR ''x'' # ascii ''yz'')
   \<and> parseMessage (ascii ''{"type":"getpeers"}'') =
       Inr (Success (JObject [(js ''type'', JString (js ''getpeers''))]))
   \<and> (\<forall>n. JObject [(js ''type'', JString (js ''getpeers''))] \<noteq> JNumber n)
   \<and> \<not> whitespace (unat (of_char CHR ''x'' :: byte))
   \<and> parseMessage (ascii ''{"type":"getpeers"}'' @ of_char CHR ''x'' # ascii ''yz'') =
       Inr (Failure not_valid_json)
   \<and> (0x80 :: byte) \<le> 0xFF
   \<and> parseMessage [0x5B, 0x22, 0xFF, 0x22, 0x5D] = Inr (Success (JArray [JString [0xFFFD]]))\<close>
proof -
  have m: \<open>JSON_parse (TextDecoder_decode (ascii ''{"type":'')) = Inl SyntaxError\<close>
    by (simp add: ascii_def decode_defs parse_defs js_def)
  have a: \<open>list_all (\<lambda>b. b < 0x80) (ascii ''{"type":"getpeers"}'' @ of_char CHR ''x'' # ascii ''yz'')\<close>
    by (simp add: ascii_def)
  have b: \<open>parseMessage (ascii ''{"type":"getpeers"}'') =
       Inr (Success (JObject [(js ''type'', JString (js ''getpeers''))]))\<close>
    by (simp add: ascii_def parseMessage_def decode_defs parse_defs js_def)
  have c: "\<not> whitespace (unat (of_char CHR ''x'' :: byte))"
    by (simp add: whitespace_def)
  have d: "(0x80 :: byte) \<le> 0xFF"
    by simp
  show ?thesis
    using parseMessage_result [of \<open>ascii ''{"type":''\<close>] m
      parseMessage_result
      [of \<open>ascii ''{"type":"getpeers"}''\<close> "of_char CHR ''x''" "ascii ''yz''"
          "JObject [(js ''type'', JString (js ''getpeers''))]" "0xFF"]
      a b c d
    by simp
qed

text \<open>
  C8. The claim: \<open>canonicalizeMessage\<close> is idempotent, and two JSON texts of one
  value canonicalize to the same output. The counterexample: on the message \<open>{}\<close> the
  output is the four-character text of a JSON string, a second application gives another,
  longer text; and \<open>{"a":1,"b":2}\<close> and \<open>{"b":2,"a":1}\<close> give different outputs.
\<close>

theorem canonicalizeMessage_twice_counterexample:
  \<open>canonicalizeMessage id (js ''{}'') = js ''"{}"''
   \<and> canonicalizeMessage id (canonicalizeMessage id (js ''{}'')) =
       [0x22, 0x5C, 0x22, 0x7B, 0x7D, 0x5C, 0x22, 0x22]
   \<and> canonicalizeMessage id (canonicalizeMessage id (js ''{}'')) \<noteq> canonicalizeMessage id (js ''{}'')
   \<and> canonicalizeMessage id (js ''{"a":1,"b":2}'') \<noteq> canonicalizeMessage id (js ''{"b":2,"a":1}'')\<close>
  by (simp add: canonicalizeMessage_def QuoteJSONString_def quote_unit_def js_def
        high_surrogate_def low_surrogate_def)

text \<open>
  C8, amended. \<open>canonicalizeMessage\<close> rejects no input, valid JSON or not, and equal
  inputs give identical output. It does not parse its argument but serializes it as one
  JSON string: the output is the quoted argument between double quotes, \<open>JSON.parse\<close>
  reads it back as the string that was given, and it is at least two code units longer
  than the input. So different arguments give different outputs, also when they are two
  texts of one JSON value, and a second application never yields the same output: the
  function is not idempotent.
\<close>

theorem canonicalizeMessage_quotes:
  "canonicalizeMessage numstr message = [0x22] @ quote_units message @ [0x22]
   \<and> JSON_parse (canonicalizeMessage numstr message) = Inr (JString message)
   \<and> (canonicalizeMessage numstr a = canonicalizeMessage numstr b) = (a = b)
   \<and> length message + 2 \<le> length (canonicalizeMessage numstr message)
   \<and> canonicalizeMessage numstr (canonicalizeMessage numstr message)
       \<noteq> canonicalizeMessage numstr message"
proof (intro conjI)
  show "canonicalizeMessage numstr message = [0x22] @ quote_units message @ [0x22]"
    by (simp add: canonicalizeMessage_def QuoteJSONString_def)
  show "JSON_parse (canonicalizeMessage numstr message) = Inr (JString message)"
    by (simp add: canonicalizeMessage_def JSON_parse_QuoteJSONString)
  show "(canonicalizeMessage numstr a = canonicalizeMessage numstr b) = (a = b)"
  proof
    assume "canonicalizeMessage numstr a = canonicalizeMessage numstr b"
    then have "JSON_parse (QuoteJSONString a) = JSON_parse (QuoteJSONString b)"
      by (simp add: canonicalizeMessage_def)
    then show "a = b"
      by (simp add: JSON_parse_QuoteJSONString)
  qed simp
  have len: "length m + 2 \<le> length (canonicalizeMessage numstr m)" for m
    using length_quote_units [of m] by (simp add: canonicalizeMessage_def QuoteJSONString_def)
  show "length message + 2 \<le> length (canonicalizeMessage numstr message)"
    by (rule len)
  have "length (canonicalizeMessage numstr (canonicalizeMessage numstr message))
         \<noteq> length (canonicalizeMessage numstr message)"
    using len [of "canonicalizeMessage numstr message"] by simp
  then show "canonicalizeMessage numstr (canonicalizeMessage numstr message)
               \<noteq> canonicalizeMessage numstr message"
    by auto
qed




text \<open>
  C10. Each call of \<open>parseMessage\<close> in the read loop receives the bytes that one call
  of \<open>conn.read\<close> put into the buffer of 1024 bytes: every input of the parser has at
  most 1024 bytes; the inputs of the parser are, one by one and in order, the results of
  the reads (all of them while the loop is still running), so nothing is accumulated from
  one read to the next; and data that arrives in pieces of at most 1024 bytes is read
  piece by piece, so that a message split over two reads is two inputs.
\<close>

theorem parseMessage_gets_single_reads:
  "list_all (\<lambda>x. length x \<le> 1024) (parsed (handleConnection numstr evs))
   \<and> prefix (parsed (handleConnection numstr evs)) (reads evs)
   \<and> (reading (handleConnection numstr evs)
        \<longrightarrow> parsed (handleConnection numstr evs) = reads evs)
   \<and> (list_all one_read evs \<longrightarrow> reads evs = map data_bytes evs)"
  using parsed_bound [of numstr evs] parsed_reads [of numstr evs] reads_one_read [of evs]
  by blast

text \<open>
  An instance: the frame \<open>{"type":"message"}\<close> arriving in two pieces is two inputs of
  the parser.
\<close>

theorem parseMessage_gets_single_reads_witness:
  \<open>list_all one_read [Data (ascii ''{"type":"mess''), Data (ascii ''age"}'')]
   \<and> reading (handleConnection id [Data (ascii ''{"type":"mess''), Data (ascii ''age"}'')])
   \<and> parsed (handleConnection id [Data (ascii ''{"type":"mess''), Data (ascii ''age"}'')]) =
       [ascii ''{"type":"mess'', ascii ''age"}'']\<close>
proof -
  have p1: \<open>parseMessage (ascii ''{"type":"mess'') = Inr (Failure not_valid_json)\<close>
    by (simp add: ascii_def parseMessage_def decode_defs parse_defs js_def)
  have p2: \<open>parseMessage (ascii ''age"}'') = Inr (Failure not_valid_json)\<close>
    by (simp add: ascii_def parseMessage_def decode_defs parse_defs js_def)
  have s1: \<open>length (ascii ''{"type":"mess'') \<le> 1024\<close>
    and s2: \<open>length (ascii ''age"}'') \<le> 1024\<close>
    by (simp_all add: ascii_def)
  have fit: \<open>list_all one_read [Data (ascii ''{"type":"mess''), Data (ascii ''age"}'')]\<close>
    using s1 s2 by simp
  have running: \<open>reading (handleConnection id [Data (ascii ''{"type":"mess''), Data (ascii ''age"}'')])\<close>
    by (simp only: one_read_simps [OF s1] one_read_simps [OF s2]
          replies_not_json [OF p1] replies_not_json [OF p2])
       (simp add: handleConnection_simps accepted_def)
  show ?thesis
    using parseMessage_gets_single_reads
      [of id \<open>[Data (ascii ''{"type":"mess''), Data (ascii ''age"}'')]\<close>] fit running
    by simp
qed

end
